theory Spec2Isabelle
  imports Complex_Main
begin

section \<open>Shared data: Python exceptions and the canonical candidate\<close>

text \<open>
  The exceptions the modelled code can raise or catch. All of them are subclasses of
  Python's \<open>Exception\<close>; \<open>OtherException\<close> stands for any further subclass (a crashed
  checker session, for instance).
\<close>

datatype py_error =
    IndexError
  | TypeError
  | ValueError
  | ZeroDivisionError
  | AttributeError
  | AssertionError
  | TimeoutError
  | ConnectionAbortedError
  | JSONDecodeError
  | OtherException string

text \<open>
  A JSON field that holds a boolean, \<open>null\<close>, or is missing from the object
  (\<open>is_correct\<close> of a merged candidate).
\<close>

datatype json_flag = Absent | Null | Flag bool

text \<open>
  One entry of the \<open>candidates\<close> array of the canonical merged format
  (\<open>organzie.py\<close> writes it, \<open>pass_at_k.py\<close> and \<open>find_longest.py\<close> read it).
  \<open>proof_text\<close> is the key \<open>proof\<close>; \<open>None\<close> there means the key is missing.
  An error position is the pair of (line, column) pairs \<open>start_pos\<close>, \<open>end_pos\<close>.
\<close>

type_synonym error_position = "(int \<times> int) \<times> (int \<times> int)"

record candidate =
  proof_text :: "string option"
  is_correct :: json_flag
  duration :: real
  prompt_tokens :: int
  completion_tokens :: int
  total_tokens :: int
  compiled_lines :: "int option"
  error_message :: "string option"
  error_position :: "error_position option"

section \<open>Metrics engine (\<open>pass_at_k.py\<close>, \<open>find_longest.py\<close>)\<close>

text \<open>\<open>c.get('is_correct', False)\<close> used as a condition: the default and Python truthiness.\<close>

definition get_is_correct :: "candidate \<Rightarrow> bool" where
  "get_is_correct c = (case is_correct c of Flag b \<Rightarrow> b | Null \<Rightarrow> False | Absent \<Rightarrow> False)"

text \<open>\<open>math.comb(n, k)\<close>: \<open>ValueError\<close> on a negative argument.\<close>

definition math_comb :: "int \<Rightarrow> int \<Rightarrow> py_error + int" where
  "math_comb n k =
     (if n < 0 \<or> k < 0 then Inl ValueError else Inr (int (nat n choose nat k)))"

text \<open>
  \<open>a / b\<close> on two Python integers. The quotient is a float in the source; the model keeps
  the exact quotient as a real number.
\<close>

definition true_div :: "int \<Rightarrow> int \<Rightarrow> py_error + real" where
  "true_div a b = (if b = 0 then Inl ZeroDivisionError else Inr (real_of_int a / real_of_int b))"

text \<open>
  \<open>compute_pass_at_k(candidates, k)\<close>. The bare \<open>except\<close> of the source turns every
  exception of the last three lines into the result \<open>0.0\<close>.
\<close>

definition compute_pass_at_k :: "candidate list \<Rightarrow> int \<Rightarrow> real" where
  "compute_pass_at_k candidates k0 =
     (if candidates = [] then 0
      else
        let correct_count = (\<Sum>c \<leftarrow> filter get_is_correct candidates. (1::int));
            n = int (length candidates);
            k = (if k0 > n then n else k0)
        in
          if correct_count = 0 then 0
          else if correct_count \<ge> k then 1
          else
            (case math_comb (n - correct_count) k of
               Inl e \<Rightarrow> 0
             | Inr numerator \<Rightarrow>
                 (case math_comb n k of
                    Inl e \<Rightarrow> 0
                  | Inr denominator \<Rightarrow>
                      (case true_div numerator denominator of
                         Inl e \<Rightarrow> 0
                       | Inr q \<Rightarrow> 1 - q))))"

text \<open>\<open>has_correct_proof(candidates)\<close>.\<close>

definition has_correct_proof :: "candidate list \<Rightarrow> bool" where
  "has_correct_proof candidates = list_ex get_is_correct candidates"

text \<open>
  The per-theorem loop of \<open>find_longest_correct_proofs_directory\<close>: the state is
  (\<open>longest_correct_proof\<close>, \<open>longest_proof_length\<close>, \<open>longest_proof_info\<close>), starting
  at \<open>("", 0, None)\<close>; \<open>candidate.get('proof', '')\<close> defaults to the empty string.
\<close>

type_synonym longest_state = "string \<times> int \<times> candidate option"

definition get_proof :: "candidate \<Rightarrow> string" where
  "get_proof c = (case proof_text c of None \<Rightarrow> [] | Some p \<Rightarrow> p)"

definition longest_step :: "longest_state \<Rightarrow> candidate \<Rightarrow> longest_state" where
  "longest_step st candidate =
     (case st of (longest_correct_proof, longest_proof_length, longest_proof_info) \<Rightarrow>
        if get_is_correct candidate then
          let pf = get_proof candidate;
              proof_length = int (length pf)
          in if proof_length > longest_proof_length
             then (pf, proof_length, Some candidate)
             else st
        else st)"

definition longest_correct :: "candidate list \<Rightarrow> longest_state" where
  "longest_correct candidates = foldl longest_step ([], 0, None) candidates"

text \<open>
  A candidate with its indeterminate or missing verdict replaced by a definite
  \<open>false\<close>; a candidate marked \<open>true\<close> or \<open>false\<close> is left as it is.
\<close>

definition collapse :: "candidate \<Rightarrow> candidate" where
  "collapse c = (case is_correct c of Flag b \<Rightarrow> c | Null \<Rightarrow> c\<lparr>is_correct := Flag False\<rparr>
                 | Absent \<Rightarrow> c\<lparr>is_correct := Flag False\<rparr>)"

text \<open>Candidates used in the examples: only the verdict and the proof text matter.\<close>

definition mk_candidate :: "string \<Rightarrow> json_flag \<Rightarrow> candidate" where
  "mk_candidate p v =
     \<lparr>proof_text = Some p, is_correct = v, duration = 0, prompt_tokens = 0,
      completion_tokens = 0, total_tokens = 0, compiled_lines = None,
      error_message = None, error_position = None\<rparr>"

text \<open>
  Example inputs. \<open>ex3\<close>: three candidates, one of them correct. \<open>ex_mixed\<close>: one
  correct candidate between an indeterminate and an unmarked one, both with longer proofs.
\<close>

definition ex3 :: "candidate list" where
  "ex3 = [mk_candidate ''a'' (Flag True), mk_candidate ''b'' (Flag False),
          mk_candidate ''c'' Null]"

definition ex_mixed :: "candidate list" where
  "ex_mixed = [mk_candidate ''longer proof'' Null, mk_candidate ''ab'' (Flag True),
               mk_candidate ''abcdefgh'' Absent]"

text \<open>
  What the metrics loops may hold as their selected candidate: nothing, or a candidate
  of the list that is marked \<open>true\<close>.
\<close>

definition picked_ok :: "candidate list \<Rightarrow> longest_state \<Rightarrow> bool" where
  "picked_ok cs st = (case st of (p, l, info) \<Rightarrow>
      (case info of None \<Rightarrow> True | Some c \<Rightarrow> is_correct c = Flag True \<and> c \<in> set cs))"

section \<open>Checker session adapter (\<open>check_context_proofs\<close> of \<open>validate.py\<close>, \<open>revalidate.py\<close>)\<close>

text \<open>
  Strings are lists of characters with code points below 256. \<open>str.splitlines\<close> breaks
  a line at \<open>\n\<close>, \<open>\r\<close>, \<open>\r\n\<close>, \<open>\v\<close>, \<open>\f\<close>, the separators \<open>\x1c\<close>, \<open>\x1d\<close>,
  \<open>\x1e\<close> and \<open>\x85\<close>; the two further boundaries of Python (U+2028, U+2029) lie outside
  this character type.
\<close>

definition is_linebreak :: "char \<Rightarrow> bool" where
  "is_linebreak c \<longleftrightarrow>
     c \<in> set [CHR 0x0A, CHR 0x0B, CHR 0x0C, CHR 0x0D, CHR 0x1C, CHR 0x1D, CHR 0x1E, CHR 0x85]"

fun splitlines_aux :: "string \<Rightarrow> string \<Rightarrow> string list" where
  "splitlines_aux cur [] = (if cur = [] then [] else [rev cur])"
| "splitlines_aux cur [c] =
     (if is_linebreak c then [rev cur] else [rev (c # cur)])"
| "splitlines_aux cur (c # d # cs) =
     (if c = CHR 0x0D \<and> d = CHR 0x0A then rev cur # splitlines_aux [] cs
      else if is_linebreak c then rev cur # splitlines_aux [] (d # cs)
      else splitlines_aux (c # cur) (d # cs))"

definition splitlines :: "string \<Rightarrow> string list" where
  "splitlines s = splitlines_aux [] s"

text \<open>
  The checker protocol as the code consumes it. A message carries its text and optional
  start and end positions, each a (line, column) pair. A response of the checker is
  either \<open>LeanError\<close> with a message or a command response; of the latter the code reads
  the verdict of the library's \<open>lean_code_is_valid(allow_sorry=False)\<close> (an input
  here, as the library is not part of the repository) and the list of messages.
\<close>

record message =
  msg_data :: string
  msg_start_pos :: "(int \<times> int) option"
  msg_end_pos :: "(int \<times> int) option"

datatype lean_output = LeanError string | CommandResponse bool "message list"

text \<open>A call of \<open>server.run\<close> returns a response or raises.\<close>

datatype run_result = Returns lean_output | Raises py_error

text \<open>
  The checker process is external: a session answers its \<open>k\<close>-th command (\<open>k = 0\<close> is the
  context, \<open>k = i + 1\<close> the \<open>i\<close>-th proof) as a function of \<open>k\<close> and the command text.
  Starting the session (\<open>LeanServer(repl_config)\<close>) may itself raise.
\<close>

type_synonym session = "nat \<Rightarrow> string \<Rightarrow> run_result"

text \<open>
  The verdict on one proof: (correctness, error message, error position, compiled line
  count), the four values the loop body appends to its four lists.
\<close>

type_synonym outcome = "bool option \<times> string option \<times> error_position option \<times> int option"

text \<open>
  The body of the loop over \<open>proofs\<close>. Only \<open>TimeoutError\<close>, \<open>ConnectionAbortedError\<close>
  and \<open>json.JSONDecodeError\<close> are caught; \<open>messages[0]\<close> on an empty list raises
  \<open>IndexError\<close>, which is not.
\<close>

definition caught_in_check :: "py_error \<Rightarrow> bool" where
  "caught_in_check e \<longleftrightarrow> e = TimeoutError \<or> e = ConnectionAbortedError \<or> e = JSONDecodeError"

definition check_proof :: "string \<Rightarrow> string \<Rightarrow> run_result \<Rightarrow> py_error + outcome" where
  "check_proof theorem_statement pf r =
     (case r of
        Raises e \<Rightarrow> if caught_in_check e then Inr (None, None, None, None) else Inl e
      | Returns (CommandResponse valid messages) \<Rightarrow>
          if valid then Inr (Some True, None, None, Some (int (length (splitlines pf))))
          else
            (case messages of
               [] \<Rightarrow> Inl IndexError
             | message # rest \<Rightarrow>
                 Inr (Some False,
                      Some (msg_data message),
                      (case (msg_start_pos message, msg_end_pos message) of
                         (Some s, Some e) \<Rightarrow> Some (s, e)
                       | _ \<Rightarrow> None),
                      (case msg_start_pos message of
                         Some (line, column) \<Rightarrow>
                           Some (line - int (length (splitlines theorem_statement)))
                       | None \<Rightarrow> None)))
      | Returns (LeanError msg) \<Rightarrow> Inr (Some False, Some msg, None, None))"

text \<open>
  What \<open>check_context_proofs\<close> returns: \<open>idx\<close>, \<open>correctness\<close>, \<open>error_positions\<close>,
  \<open>error_messages\<close>, \<open>compiled_line_counts\<close>.
\<close>

type_synonym check_result =
  "nat \<times> bool option list \<times> error_position option list \<times> string option list \<times> int option list"

text \<open>
  The loop over \<open>proofs\<close>, with the four lists as accumulators; \<open>k\<close> numbers the command.
  The command sent is \<open>theorem_statement + " := " + proof\<close>.
\<close>

fun check_loop ::
  "session \<Rightarrow> string \<Rightarrow> nat \<Rightarrow> string list \<Rightarrow>
   bool option list \<times> error_position option list \<times> string option list \<times> int option list \<Rightarrow>
   py_error +
   bool option list \<times> error_position option list \<times> string option list \<times> int option list"
where
  "check_loop server theorem_statement k [] acc = Inr acc"
| "check_loop server theorem_statement k (pf # proofs) acc =
     (case acc of (correctness, error_positions, error_messages, compiled_line_counts) \<Rightarrow>
        (case check_proof theorem_statement pf
                (server k (theorem_statement @ '' := '' @ pf)) of
           Inl e \<Rightarrow> Inl e
         | Inr (c, m, p, n) \<Rightarrow>
             check_loop server theorem_statement (Suc k) proofs
               (correctness @ [c], error_positions @ [p], error_messages @ [m],
                compiled_line_counts @ [n])))"

definition check_context_proofs ::
  "py_error + session \<Rightarrow> nat \<Rightarrow> string \<Rightarrow> string \<Rightarrow> string list \<Rightarrow> py_error + check_result"
where
  "check_context_proofs started idx context_code theorem_statement proofs =
     (case started of
        Inl e \<Rightarrow> Inl e
      | Inr server \<Rightarrow>
          (case server 0 context_code of
             Raises e \<Rightarrow> Inl e
           | Returns (LeanError msg) \<Rightarrow> Inl AssertionError
           | Returns (CommandResponse valid messages) \<Rightarrow>
               (case check_loop server theorem_statement 1 proofs ([], [], [], []) of
                  Inl e \<Rightarrow> Inl e
                | Inr (correctness, error_positions, error_messages, compiled_line_counts) \<Rightarrow>
                    Inr (idx, correctness, error_positions, error_messages,
                         compiled_line_counts))))"

text \<open>
  The outcomes of all proofs in order, without the accumulators of the loop: used to
  state what the four lists hold.
\<close>

fun check_all :: "session \<Rightarrow> string \<Rightarrow> nat \<Rightarrow> string list \<Rightarrow> py_error + outcome list" where
  "check_all server stmt k [] = Inr []"
| "check_all server stmt k (pf # proofs) =
     (case check_proof stmt pf (server k (stmt @ '' := '' @ pf)) of
        Inl e \<Rightarrow> Inl e
      | Inr out \<Rightarrow>
          (case check_all server stmt (Suc k) proofs of
             Inl e \<Rightarrow> Inl e
           | Inr outs \<Rightarrow> Inr (out # outs)))"

text \<open>
  An example session: a five-line statement, a context that compiles, a first proof
  answered with two diagnostics, of which the first is at line 12, columns 4 to 10, and a
  second proof that times out.
\<close>

definition ex_statement :: string where
  "ex_statement = ''theorem t'' @ [CHR 0x0A] @ ''  (a b : Nat)'' @ [CHR 0x0A] @ ''  (h : a = b)''
      @ [CHR 0x0D, CHR 0x0A] @ ''  (k : b = b) :'' @ [CHR 0x0A] @ ''  b = a''"

definition ex_message :: message where
  "ex_message = \<lparr>msg_data = ''unsolved goals'', msg_start_pos = Some (12, 4), msg_end_pos = Some (12, 10)\<rparr>"

definition ex_note :: message where
  "ex_note = \<lparr>msg_data = ''later'', msg_start_pos = None, msg_end_pos = None\<rparr>"

definition ex_session :: session where
  "ex_session k cmd =
     (if k = 0 then Returns (CommandResponse True [])
      else if k = 1 then Returns (CommandResponse False [ex_message, ex_note])
      else Raises TimeoutError)"

text \<open>
  A session that accepts every proof and attaches a warning to its answer.
\<close>

definition ex_warning :: message where
  "ex_warning = \<lparr>msg_data = ''unused variable'', msg_start_pos = Some (12, 4),
                  msg_end_pos = Some (12, 10)\<rparr>"

definition warn_session :: session where
  "warn_session k cmd =
     (if k = 0 then Returns (CommandResponse True [])
      else Returns (CommandResponse True [ex_warning]))"

section \<open>Validation runner (\<open>validate.py\<close>) and repair pass (\<open>revalidate.py\<close>)\<close>

text \<open>
  A task of the benchmark, the generation record of a task and its validation record.
  In a validation record each of the four arrays may be \<open>null\<close> as a whole.
\<close>

record task =
  srcContext :: string
  theoremStatement :: string
  theoremName :: string

record generation =
  g_statement_idx :: nat
  g_candidates :: "string list"
  g_durations :: "real list"
  g_prompt_tokens :: "int list"
  g_completion_tokens :: "int list"
  g_total_tokens :: "int list"

record validation_result =
  statement_idx :: nat
  correctness :: "bool option list option"
  error_positions :: "error_position option list option"
  error_messages :: "string option list option"
  compiled_line_counts :: "int option list option"

text \<open>The record both runners start from and fall back to: every array is \<open>None\<close>.\<close>

definition all_none :: "nat \<Rightarrow> validation_result" where
  "all_none idx =
     \<lparr>statement_idx = idx, correctness = None, error_positions = None,
      error_messages = None, compiled_line_counts = None\<rparr>"

text \<open>
  What a retry loop does besides computing its record, in the order it does it: attempt
  number \<open>t\<close> on the checker (a call of \<open>check_context_proofs\<close>), the report printed
  by the exception handler, or a pause before the next attempt.
\<close>

datatype effect = Attempt nat | Report py_error | Pause real

definition attempts :: "effect list \<Rightarrow> nat list" where
  "attempts trace = concat (map (\<lambda>e. case e of Attempt t \<Rightarrow> [t] | _ \<Rightarrow> []) trace)"

definition pauses :: "effect list \<Rightarrow> real list" where
  "pauses trace = concat (map (\<lambda>e. case e of Pause d \<Rightarrow> [d] | _ \<Rightarrow> []) trace)"




text \<open>
  The retry loop of \<open>revalidate.py\<close>: the state is the four variables \<open>correctness\<close>,
  \<open>error_positions\<close>, \<open>error_messages\<close>, \<open>compiled_line_counts\<close>, all \<open>None\<close> at
  first, and \<open>n_tries\<close>; the bound is 5. The index the call returns is the one it was
  given, so the record is stored under \<open>idx\<close>.
\<close>

type_synonym retry_state =
  "bool option list option \<times> error_position option list option \<times>
   string option list option \<times> int option list option"

function revalidate_retry ::
  "(nat \<Rightarrow> py_error + session) \<Rightarrow> nat \<Rightarrow> string \<Rightarrow> string \<Rightarrow> string list \<Rightarrow>
   retry_state \<Rightarrow> nat \<Rightarrow> effect list \<Rightarrow> retry_state \<times> nat \<times> effect list"
where
  "revalidate_retry start idx context_code theorem_statement proofs st n_tries trace =
     (if fst st = None \<and> n_tries < 5 then
        (case check_context_proofs (start n_tries) idx context_code theorem_statement proofs of
           Inl e \<Rightarrow>
             revalidate_retry start idx context_code theorem_statement proofs
               st (Suc n_tries) (trace @ [Attempt n_tries, Report e])
         | Inr (idx', c, ep, em, cl) \<Rightarrow>
             revalidate_retry start idx context_code theorem_statement proofs
               (Some c, Some ep, Some em, Some cl) (Suc n_tries) (trace @ [Attempt n_tries]))
      else (st, n_tries, trace))"
  by pat_completeness auto
termination
  by (relation "measure (\<lambda>(start, idx, ctx, stmt, proofs, st, n_tries, trace). 5 - n_tries)") auto

definition revalidate_task ::
  "(nat \<Rightarrow> py_error + session) \<Rightarrow> nat \<Rightarrow> task \<Rightarrow> generation \<Rightarrow>
   validation_result \<times> nat \<times> effect list"
where
  "revalidate_task start idx tsk gen =
     (case revalidate_retry start idx (srcContext tsk) (theoremStatement tsk) (g_candidates gen)
             (None, None, None, None) 0 [] of
        ((c, ep, em, cl), n_tries, trace) \<Rightarrow>
          (\<lparr>statement_idx = idx, correctness = c, error_positions = ep,
            error_messages = em, compiled_line_counts = cl\<rparr>, n_tries, trace))"

text \<open>
  The selection loop of \<open>revalidate.py\<close>, with its constant \<open>expected_len = 6\<close> and its
  five tests in the order of the source.
\<close>

definition expected_len :: nat where
  "expected_len = 6"

definition needs_revalidation :: "validation_result \<Rightarrow> bool" where
  "needs_revalidation result =
     (case (error_messages result, error_positions result, correctness result) of
        (Some em, Some ep, Some c) \<Rightarrow>
          if length em \<noteq> expected_len then True
          else if length ep \<noteq> expected_len then True
          else if length c \<noteq> expected_len then True
          else if list_ex (\<lambda>correct. correct = None) c then True
          else False
      | _ \<Rightarrow> True)"

definition select_revalidate :: "validation_result list \<Rightarrow> nat list" where
  "select_revalidate validations =
     map fst (filter (\<lambda>(i, result). needs_revalidation result)
                (zip [0..<length validations] validations))"

text \<open>
  The repair loop: \<open>tasks[idx]\<close> and \<open>generations[idx]\<close> raise \<open>IndexError\<close> out of
  range, as does the assignment \<open>validations[idx] = ...\<close>; an exception ends the script
  before the file is rewritten.
\<close>

fun repair_loop ::
  "(nat \<Rightarrow> nat \<Rightarrow> py_error + session) \<Rightarrow> task list \<Rightarrow> generation list \<Rightarrow> nat list \<Rightarrow>
   validation_result list \<Rightarrow> py_error + validation_result list"
where
  "repair_loop start tasks generations [] validations = Inr validations"
| "repair_loop start tasks generations (idx # rest) validations =
     (if idx \<ge> length tasks then Inl IndexError
      else if idx \<ge> length generations then Inl IndexError
      else
        let validation_result =
              fst (revalidate_task (start idx) idx (tasks ! idx) (generations ! idx))
        in if idx \<ge> length validations then Inl IndexError
           else repair_loop start tasks generations rest (validations[idx := validation_result]))"

definition revalidate_run ::
  "(nat \<Rightarrow> nat \<Rightarrow> py_error + session) \<Rightarrow> task list \<Rightarrow> generation list \<Rightarrow>
   validation_result list \<Rightarrow> py_error + validation_result list"
where
  "revalidate_run start tasks generations validations =
     repair_loop start tasks generations (select_revalidate validations) validations"

text \<open>
  A stored entry as the specification calls it malformed, for an expected candidate
  count \<open>n\<close>: one of \<open>correctness\<close>, \<open>error_messages\<close>, \<open>error_positions\<close> is \<open>null\<close>, or
  is an array whose length differs from \<open>n\<close>, or \<open>correctness\<close> holds a \<open>null\<close> entry.
\<close>

definition malformed :: "nat \<Rightarrow> validation_result \<Rightarrow> bool" where
  "malformed n r \<longleftrightarrow>
     (case correctness r of None \<Rightarrow> True | Some c \<Rightarrow> length c \<noteq> n \<or> None \<in> set c) \<or>
     (case error_messages r of None \<Rightarrow> True | Some em \<Rightarrow> length em \<noteq> n) \<or>
     (case error_positions r of None \<Rightarrow> True | Some ep \<Rightarrow> length ep \<noteq> n)"


definition ex_task :: task where
  "ex_task = \<lparr>srcContext = ''import Mathlib'', theoremStatement = ex_statement,
              theoremName = ''t''\<rparr>"

definition ex_generation :: generation where
  "ex_generation = \<lparr>g_statement_idx = 0, g_candidates = [''simp'', ''rfl''],
                    g_durations = [1, 2], g_prompt_tokens = [10, 10],
                    g_completion_tokens = [3, 4], g_total_tokens = [13, 14]\<rparr>"

definition good_entry :: "nat \<Rightarrow> validation_result" where
  "good_entry idx =
     \<lparr>statement_idx = idx, correctness = Some (replicate 6 (Some False)),
      error_positions = Some (replicate 6 None),
      error_messages = Some (replicate 6 (Some ''error'')),
      compiled_line_counts = Some (replicate 6 None)\<rparr>"

text \<open>
  Attempt \<open>t\<close> on a task raises: the call of \<open>check_context_proofs\<close> made when
  \<open>n_tries = t\<close> ends in an exception.
\<close>

definition attempt_raises :: "(nat \<Rightarrow> py_error + session) \<Rightarrow> nat \<Rightarrow> task \<Rightarrow> generation \<Rightarrow> nat \<Rightarrow> bool" where
  "attempt_raises start idx tsk gen t =
     isl (check_context_proofs (start t) idx (srcContext tsk) (theoremStatement tsk) (g_candidates gen))"

text \<open>
  The record a returning call of \<open>check_context_proofs\<close> is stored as.
\<close>

definition record_of :: "check_result \<Rightarrow> validation_result" where
  "record_of r =
     (case r of (idx', c, ep, em, cl) \<Rightarrow>
        \<lparr>statement_idx = idx', correctness = Some c, error_positions = Some ep,
         error_messages = Some em, compiled_line_counts = Some cl\<rparr>)"



definition ok_session :: session where
  "ok_session k cmd =
     (if k = 0 then Returns (CommandResponse True [])
      else if k = 1 then Returns (CommandResponse True [])
      else Returns (CommandResponse False [ex_message]))"

definition short_entry :: "nat \<Rightarrow> validation_result" where
  "short_entry idx =
     \<lparr>statement_idx = idx, correctness = Some [Some False, Some False],
      error_positions = Some [None, None],
      error_messages = Some [Some ''error'', Some ''error''],
      compiled_line_counts = Some [None, None]\<rparr>"

definition rechecked_entry :: "nat \<Rightarrow> validation_result" where
  "rechecked_entry idx =
     \<lparr>statement_idx = idx, correctness = Some [Some True, Some False],
      error_positions = Some [None, Some ((12, 4), (12, 10))],
      error_messages = Some [None, Some ''unsolved goals''],
      compiled_line_counts = Some [Some 1, Some 7]\<rparr>"

text \<open>A stored results file with one all-none entry between two well-formed ones.\<close>

definition ex_validations :: "validation_result list" where
  "ex_validations = [good_entry 0, all_none 1, good_entry 2]"

section \<open>Result merger (\<open>combine_files\<close> of \<open>organzie.py\<close>)\<close>

text \<open>
  \<open>xs[i]\<close> for a non-negative \<open>i\<close>: \<open>IndexError\<close> out of range, and \<open>TypeError\<close> when
  the value subscripted is \<open>None\<close>.
\<close>

definition py_index :: "'a list \<Rightarrow> nat \<Rightarrow> py_error + 'a" where
  "py_index xs i = (if i < length xs then Inr (xs ! i) else Inl IndexError)"

definition py_index_opt :: "'a list option \<Rightarrow> nat \<Rightarrow> py_error + 'a" where
  "py_index_opt xs i = (case xs of None \<Rightarrow> Inl TypeError | Some ys \<Rightarrow> py_index ys i)"

text \<open>Sequencing of two computations that may raise.\<close>

definition and_then :: "py_error + 'a \<Rightarrow> ('a \<Rightarrow> py_error + 'b) \<Rightarrow> py_error + 'b" where
  "and_then r f = (case r of Inl e \<Rightarrow> Inl e | Inr v \<Rightarrow> f v)"

text \<open>A stored verdict (\<open>true\<close>, \<open>false\<close> or \<open>null\<close>) as the \<open>is_correct\<close> field.\<close>

definition flag_of :: "bool option \<Rightarrow> json_flag" where
  "flag_of c = (case c of None \<Rightarrow> Null | Some b \<Rightarrow> Flag b)"

text \<open>
  The body of the loop over \<open>range(n_candidates)\<close>: one of the two dictionary displays,
  whose values are evaluated in the order written.
\<close>

definition combine_candidate :: "generation \<Rightarrow> validation_result \<Rightarrow> nat \<Rightarrow> py_error + candidate" where
  "combine_candidate gen_result val_result i =
     (if correctness val_result = None then
        and_then (py_index (g_candidates gen_result) i) (\<lambda>p.
        and_then (py_index (g_durations gen_result) i) (\<lambda>d.
        and_then (py_index (g_prompt_tokens gen_result) i) (\<lambda>pt.
        and_then (py_index (g_completion_tokens gen_result) i) (\<lambda>ct.
        and_then (py_index (g_total_tokens gen_result) i) (\<lambda>tt.
          Inr \<lparr>proof_text = Some p, is_correct = Null, duration = d, prompt_tokens = pt,
               completion_tokens = ct, total_tokens = tt, compiled_lines = None,
               error_message = None, error_position = None\<rparr>)))))
      else
        and_then (py_index (g_candidates gen_result) i) (\<lambda>p.
        and_then (py_index_opt (correctness val_result) i) (\<lambda>c.
        and_then (py_index (g_durations gen_result) i) (\<lambda>d.
        and_then (py_index (g_prompt_tokens gen_result) i) (\<lambda>pt.
        and_then (py_index (g_completion_tokens gen_result) i) (\<lambda>ct.
        and_then (py_index (g_total_tokens gen_result) i) (\<lambda>tt.
        and_then (py_index_opt (compiled_line_counts val_result) i) (\<lambda>cl.
        and_then (py_index_opt (error_messages val_result) i) (\<lambda>em.
        and_then (py_index_opt (error_positions val_result) i) (\<lambda>ep.
          Inr \<lparr>proof_text = Some p, is_correct = flag_of c, duration = d, prompt_tokens = pt,
               completion_tokens = ct, total_tokens = tt, compiled_lines = cl,
               error_message = em, error_position = ep\<rparr>))))))))))"

text \<open>The loop itself: candidates are appended in index order until one raises.\<close>

fun combine_from :: "generation \<Rightarrow> validation_result \<Rightarrow> nat list \<Rightarrow> py_error + candidate list" where
  "combine_from gen_result val_result [] = Inr []"
| "combine_from gen_result val_result (i # rest) =
     and_then (combine_candidate gen_result val_result i) (\<lambda>c.
     and_then (combine_from gen_result val_result rest) (\<lambda>cs. Inr (c # cs)))"

definition combine_candidates :: "generation \<Rightarrow> validation_result \<Rightarrow> py_error + candidate list" where
  "combine_candidates gen_result val_result =
     combine_from gen_result val_result [0..<length (g_candidates gen_result)]"

text \<open>
  An entry of \<open>combined_data["results"]\<close>, and the two dictionaries keyed by
  \<open>statement_idx\<close>, filled in file order so that a later record replaces an earlier one.
\<close>

record result_entry =
  r_theoremStatement :: string
  r_theoremName :: string
  r_candidates :: "candidate list"

definition index_generations :: "generation list \<Rightarrow> (nat \<rightharpoonup> generation)" where
  "index_generations rs = foldl (\<lambda>m r. m(g_statement_idx r \<mapsto> r)) Map.empty rs"

definition index_validations :: "validation_result list \<Rightarrow> (nat \<rightharpoonup> validation_result)" where
  "index_validations rs = foldl (\<lambda>m r. m(statement_idx r \<mapsto> r)) Map.empty rs"

text \<open>
  One iteration of the loop over \<open>enumerate(problems_data)\<close>: a problem whose index is
  missing from either dictionary is skipped with a warning.
\<close>

definition combine_step ::
  "(nat \<rightharpoonup> generation) \<Rightarrow> (nat \<rightharpoonup> validation_result) \<Rightarrow> nat \<times> task \<Rightarrow>
   (string \<rightharpoonup> result_entry) \<Rightarrow> py_error + (string \<rightharpoonup> result_entry)"
where
  "combine_step generation_results validation_results p results =
     (case p of (stmt_idx, problem) \<Rightarrow>
        (case (generation_results stmt_idx, validation_results stmt_idx) of
           (Some gen_result, Some val_result) \<Rightarrow>
             and_then (combine_candidates gen_result val_result) (\<lambda>candidates.
               Inr (results(theoremName problem \<mapsto>
                      \<lparr>r_theoremStatement = theoremStatement problem,
                       r_theoremName = theoremName problem,
                       r_candidates = candidates\<rparr>)))
         | _ \<Rightarrow> Inr results))"

fun combine_loop ::
  "(nat \<rightharpoonup> generation) \<Rightarrow> (nat \<rightharpoonup> validation_result) \<Rightarrow> (nat \<times> task) list \<Rightarrow>
   (string \<rightharpoonup> result_entry) \<Rightarrow> py_error + (string \<rightharpoonup> result_entry)"
where
  "combine_loop generation_results validation_results [] results = Inr results"
| "combine_loop generation_results validation_results (p # ps) results =
     and_then (combine_step generation_results validation_results p results)
       (combine_loop generation_results validation_results ps)"

text \<open>
  The statistics printed after the output file is written. The keys of the results are
  theorem names of the problems, each counted once; the success rate divides by the total
  number of candidates and raises \<open>ZeroDivisionError\<close> when there is none.
\<close>

definition total_candidates :: "task list \<Rightarrow> (string \<rightharpoonup> result_entry) \<Rightarrow> nat" where
  "total_candidates problems_data results =
     sum_list (map (\<lambda>name. case results name of
                                None \<Rightarrow> 0
                              | Some entry \<Rightarrow> length (r_candidates entry))
                 (remdups (map theoremName problems_data)))"

text \<open>
  The whole function: the merged results it has written when it returns, or the
  exception it ends with; the one of the statistics is raised after the output file was
  written.
\<close>

definition combine_files ::
  "task list \<Rightarrow> generation list \<Rightarrow> validation_result list \<Rightarrow>
   py_error + (string \<rightharpoonup> result_entry)"
where
  "combine_files problems_data generation_data validation_data =
     and_then
       (combine_loop (index_generations generation_data) (index_validations validation_data)
          (zip [0..<length problems_data] problems_data) Map.empty)
       (\<lambda>results.
          if total_candidates problems_data results = 0 then Inl ZeroDivisionError
          else Inr results)"

text \<open>
  Example validation records for the two candidates of \<open>ex_generation\<close>: one whose arrays
  hold three entries, and one whose correctness is \<open>null\<close>.
\<close>

definition ex_validation_long :: validation_result where
  "ex_validation_long =
     \<lparr>statement_idx = 0, correctness = Some [Some True, Some False, Some False],
      error_positions = Some [None, None, None],
      error_messages = Some [None, Some ''unsolved goals'', Some ''unknown tactic''],
      compiled_line_counts = Some [Some 1, None, None]\<rparr>"

definition ex_merged_long :: "candidate list" where
  "ex_merged_long =
     [\<lparr>proof_text = Some ''simp'', is_correct = Flag True, duration = 1, prompt_tokens = 10,
       completion_tokens = 3, total_tokens = 13, compiled_lines = Some 1,
       error_message = None, error_position = None\<rparr>,
      \<lparr>proof_text = Some ''rfl'', is_correct = Flag False, duration = 2, prompt_tokens = 10,
       completion_tokens = 4, total_tokens = 14, compiled_lines = None,
       error_message = Some ''unsolved goals'', error_position = None\<rparr>]"




section \<open>Generation runner (\<open>generate\<close> of \<open>generate.py\<close>)\<close>

text \<open>
  \<open>extract_proof_from_response\<close> and the string methods it calls: \<open>str.startswith\<close>,
  \<open>str.split\<close> with a one-character separator, \<open>str.join\<close> and \<open>str.strip\<close>. Characters are
  those below 256, for which \<open>str.isspace\<close> is the set written in \<open>is_whitespace\<close>.
\<close>

definition startswith :: "string \<Rightarrow> string \<Rightarrow> bool" where
  "startswith s p \<longleftrightarrow> take (length p) s = p"

fun split_on :: "char \<Rightarrow> string \<Rightarrow> string list" where
  "split_on sep [] = [[]]"
| "split_on sep (c # cs) =
     (if c = sep then [] # split_on sep cs
      else (case split_on sep cs of
              [] \<Rightarrow> [[c]]
            | w # ws \<Rightarrow> (c # w) # ws))"

fun join :: "string \<Rightarrow> string list \<Rightarrow> string" where
  "join sep [] = []"
| "join sep [w] = w"
| "join sep (w # v # ws) = w @ sep @ join sep (v # ws)"

definition is_whitespace :: "char \<Rightarrow> bool" where
  "is_whitespace c \<longleftrightarrow>
     c \<in> set [CHR 0x09, CHR 0x0A, CHR 0x0B, CHR 0x0C, CHR 0x0D, CHR 0x1C, CHR 0x1D, CHR 0x1E,
              CHR 0x1F, CHR 0x20, CHR 0x85, CHR 0xA0]"

definition strip :: "string \<Rightarrow> string" where
  "strip s = rev (dropWhile is_whitespace (rev (dropWhile is_whitespace s)))"

definition extract_proof_from_response :: "string \<Rightarrow> string" where
  "extract_proof_from_response response =
     (let proof0 =
            (if startswith response ''```'' then
               (let lines = split_on (CHR 0x0A) response in
                if length lines > 1 then
                  (if strip (last lines) = ''```'' then join [CHR 0x0A] (butlast (tl lines))
                   else join [CHR 0x0A] (tl lines))
                else response)
             else response)
      in if startswith proof0 '':= '' then strip (drop 3 proof0) else proof0)"

text \<open>
  What the provider client hands back. A response carries the content of each choice's
  message (\<open>None\<close> when the provider sent no content) and an optional usage block.
  \<open>timed_completion\<close> wraps the call: it returns the response, or the exception the call
  raised, with the measured duration and a success flag.
\<close>

record usage_info =
  u_prompt_tokens :: int
  u_completion_tokens :: int
  u_total_tokens :: int

record response =
  choices :: "string option list"
  usage :: "usage_info option"

datatype response_or_exception = Resp response | Exc py_error

record timed_result =
  t_response :: response_or_exception
  t_duration :: real
  t_success :: bool

text \<open>
  One element of the list returned by \<open>asyncio.gather(*tasks, return_exceptions=True)\<close>:
  the exception that escaped the task, or the dictionary \<open>timed_completion\<close> returned.
\<close>

datatype slot = SlotException py_error | SlotResult timed_result

text \<open>
  The body of \<open>for result in results\<close>: the candidate, duration and three token counts
  appended for one slot, or the exception raised while reading the response
  (\<open>choices[0]\<close> of an empty list, an attribute of a missing usage block).
\<close>

type_synonym slot_outcome = "string \<times> real \<times> int \<times> int \<times> int"

definition process_slot :: "slot \<Rightarrow> py_error + slot_outcome" where
  "process_slot result =
     (case result of
        SlotException e \<Rightarrow> Inr ('''', 0, 0, 0, 0)
      | SlotResult r \<Rightarrow>
          (case t_response r of
             Exc e \<Rightarrow> Inr ('''', t_duration r, 0, 0, 0)
           | Resp resp \<Rightarrow>
               if \<not> t_success r then Inr ('''', t_duration r, 0, 0, 0)
               else
                 and_then (py_index (choices resp) 0) (\<lambda>content.
                   (case content of
                      None \<Rightarrow>
                        (case usage resp of
                           None \<Rightarrow> Inr ('''', t_duration r, 0, 0, 0)
                         | Some u \<Rightarrow>
                             Inr ('''', t_duration r, u_prompt_tokens u, u_completion_tokens u,
                                  u_total_tokens u))
                    | Some text \<Rightarrow>
                        (case usage resp of
                           None \<Rightarrow> Inl AttributeError
                         | Some u \<Rightarrow>
                             Inr (extract_proof_from_response text, t_duration r,
                                  u_prompt_tokens u, u_completion_tokens u,
                                  u_total_tokens u))))))"

text \<open>The five parallel lists, of one batch or of the whole run.\<close>

type_synonym arrays = "string list \<times> real list \<times> int list \<times> int list \<times> int list"

definition append_outcome :: "slot_outcome \<Rightarrow> arrays \<Rightarrow> arrays" where
  "append_outcome x b =
     (case (x, b) of
        ((c, d, p, q, t), (cs, ds, ps, qs, ts)) \<Rightarrow> (c # cs, d # ds, p # ps, q # qs, t # ts))"

fun process_results :: "slot list \<Rightarrow> py_error + arrays" where
  "process_results [] = Inr ([], [], [], [], [])"
| "process_results (result # rest) =
     and_then (process_slot result) (\<lambda>x.
     and_then (process_results rest) (\<lambda>b. Inr (append_outcome x b)))"

definition extend_all :: "arrays \<Rightarrow> arrays \<Rightarrow> arrays" where
  "extend_all a b =
     (case (a, b) of
        ((cs, ds, ps, qs, ts), (cs', ds', ps', qs', ts')) \<Rightarrow>
          (cs @ cs', ds @ ds', ps @ ps', qs @ qs', ts @ ts'))"

text \<open>
  The provider as the loop sees it: for the batch starting at candidate index \<open>i\<close>, whether
  awaiting the gathered tasks raises, and otherwise what the \<open>j\<close>-th task of that batch
  yields. Gathering \<open>current_batch_size\<close> tasks gives that many results, in order.
\<close>

record provider =
  gather_error :: "int \<Rightarrow> py_error option"
  completion :: "int \<Rightarrow> nat \<Rightarrow> slot"

definition gather :: "provider \<Rightarrow> int \<Rightarrow> int \<Rightarrow> py_error + slot list" where
  "gather env i current_batch_size =
     (case gather_error env i of
        Some e \<Rightarrow> Inl e
      | None \<Rightarrow> Inr (map (completion env i) [0..<nat current_batch_size]))"

text \<open>
  The lists of the \<open>except Exception\<close> branch: \<open>[""] * current_batch_size\<close> and
  \<open>[0] * current_batch_size\<close>.
\<close>

definition degraded :: "int \<Rightarrow> arrays" where
  "degraded current_batch_size =
     (replicate (nat current_batch_size) '''', replicate (nat current_batch_size) 0,
      replicate (nat current_batch_size) 0, replicate (nat current_batch_size) 0,
      replicate (nat current_batch_size) 0)"

text \<open>
  The \<open>try\<close> statement of one batch. The batch lists are added to the run's lists only after
  every result was processed, so an exception anywhere in the batch leaves the run's lists
  untouched and the handler adds the degraded lists.
\<close>

definition generate_batch :: "provider \<Rightarrow> int \<Rightarrow> int \<Rightarrow> arrays" where
  "generate_batch env i current_batch_size =
     (case and_then (gather env i current_batch_size) process_results of
        Inl e \<Rightarrow> degraded current_batch_size
      | Inr b \<Rightarrow> b)"

text \<open>
  The loop \<open>for i in range(0, n_candidates, batch_size)\<close> for a non-zero step; the pause
  between batches changes no value and is left out.
\<close>

function generate_loop :: "provider \<Rightarrow> int \<Rightarrow> int \<Rightarrow> int \<Rightarrow> arrays \<Rightarrow> arrays" where
  "generate_loop env n batch i acc =
     (if (0 < batch \<and> i < n) \<or> (batch < 0 \<and> n < i) then
        generate_loop env n batch (i + batch)
          (extend_all acc (generate_batch env i (min batch (n - i))))
      else acc)"
  by pat_completeness auto
termination
  by (relation "measure (\<lambda>(env, n, batch, i, acc). nat (if 0 < batch then n - i else i - n))")
     auto

text \<open>
  The configuration keys \<open>generate\<close> reads: \<open>n_candidates\<close>, and \<open>batch_size\<close> with the
  default 3 of \<open>gen_config.get('batch_size', 3)\<close>. \<open>range\<close> with step 0 raises \<open>ValueError\<close>.
\<close>

record gen_config =
  n_candidates :: int
  batch_size :: "int option"

definition generate :: "provider \<Rightarrow> gen_config \<Rightarrow> py_error + arrays" where
  "generate env cfg =
     (let batch = (case batch_size cfg of None \<Rightarrow> 3 | Some b \<Rightarrow> b) in
      if batch = 0 then Inl ValueError
      else Inr (generate_loop env (n_candidates cfg) batch 0 ([], [], [], [], [])))"

text \<open>
  Example slots: a task that raised, a call the provider failed after 2.5 seconds, a
  response without content, a fenced proof, and a response without choices; and a provider
  serving them for a run of three candidates in batches of two.
\<close>

definition ex_usage :: usage_info where
  "ex_usage = \<lparr>u_prompt_tokens = 10, u_completion_tokens = 3, u_total_tokens = 13\<rparr>"

definition ex_raised :: slot where
  "ex_raised = SlotException (OtherException ''KeyError'')"

definition ex_failed :: slot where
  "ex_failed = SlotResult \<lparr>t_response = Exc TimeoutError, t_duration = 5 / 2, t_success = False\<rparr>"

definition ex_no_content :: slot where
  "ex_no_content =
     SlotResult \<lparr>t_response = Resp \<lparr>choices = [None], usage = Some ex_usage\<rparr>,
                 t_duration = 4, t_success = True\<rparr>"

definition ex_fenced :: slot where
  "ex_fenced =
     SlotResult \<lparr>t_response =
                   Resp \<lparr>choices = [Some (''```lean'' @ [CHR 0x0A] @ ''simp'' @ [CHR 0x0A] @ ''```'')],
                         usage = Some ex_usage\<rparr>,
                 t_duration = 1, t_success = True\<rparr>"

definition ex_no_choices :: slot where
  "ex_no_choices =
     SlotResult \<lparr>t_response = Resp \<lparr>choices = [], usage = Some ex_usage\<rparr>,
                 t_duration = 1, t_success = True\<rparr>"

definition ex_provider :: provider where
  "ex_provider =
     \<lparr>gather_error = (\<lambda>i. None),
      completion = (\<lambda>i j. if i = 0 then (if j = 0 then ex_failed else ex_no_content)
                           else ex_fenced)\<rparr>"

text \<open>A provider whose second task of every batch answers without choices.\<close>

definition ex_broken_provider :: provider where
  "ex_broken_provider =
     \<lparr>gather_error = (\<lambda>i. None),
      completion = (\<lambda>i j. if j = 1 then ex_no_choices else ex_fenced)\<rparr>"

definition ex_config :: gen_config where
  "ex_config = \<lparr>n_candidates = 3, batch_size = Some 2\<rparr>"

text \<open>All five lists of a result have the length \<open>k\<close>.\<close>

definition arrays_length :: "arrays \<Rightarrow> nat \<Rightarrow> bool" where
  "arrays_length a k \<longleftrightarrow>
     (case a of (cs, ds, ps, qs, ts) \<Rightarrow>
        length cs = k \<and> length ds = k \<and> length ps = k \<and> length qs = k \<and> length ts = k)"

text \<open>The five lists holding the outcomes \<open>xs\<close> in order.\<close>

definition arrays_of :: "slot_outcome list \<Rightarrow> arrays" where
  "arrays_of xs =
     (map fst xs, map (fst \<circ> snd) xs, map (fst \<circ> snd \<circ> snd) xs,
      map (fst \<circ> snd \<circ> snd \<circ> snd) xs, map (snd \<circ> snd \<circ> snd \<circ> snd) xs)"

section \<open>Properties of the metrics engine\<close>

lemma correct_count_length:
  "(\<Sum>c \<leftarrow> filter get_is_correct cs. (1::int)) = int (length (filter get_is_correct cs))"
  by (induction cs) auto

lemma correct_count_le: "length (filter get_is_correct cs) \<le> length cs"
  by simp

lemma sum_ones: "(\<Sum>c \<leftarrow> xs. (1::int)) = int (length xs)"
  by (induction xs) auto

lemma filter_ex3: "filter get_is_correct ex3 = [mk_candidate ''a'' (Flag True)]"
  by (simp add: ex3_def mk_candidate_def get_is_correct_def)

lemma choose_3_2: "(3::nat) choose 2 = 3"
  by code_simp

text \<open>
  Claim C1. For every candidate list with \<open>n\<close> candidates, \<open>c\<close> of them marked correct,
  and every integer \<open>k \<ge> 1\<close>: \<open>compute_pass_at_k\<close> returns 0 when the list is empty or
  \<open>c = 0\<close>; otherwise, with \<open>k\<close> clamped to \<open>n\<close>, it returns 1 when \<open>c \<ge> k\<close> and
  \<open>1 - C(n - c, k) / C(n, k)\<close> otherwise, the binomial coefficients being exact integers.
  (The float quotient of the source is the exact quotient here.)
\<close>

theorem pass_at_k_formula:
  assumes "1 \<le> k"
  shows "compute_pass_at_k cs k =
    (let n = int (length cs);
         c = int (length (filter get_is_correct cs));
         k' = (if k > n then n else k)
     in if cs = [] \<or> c = 0 then 0
        else if c \<ge> k' then 1
        else 1 - real (nat (n - c) choose nat k') / real (nat n choose nat k'))"
proof -
  have le: "int (length (filter get_is_correct cs)) \<le> int (length cs)"
    by simp
  show ?thesis
    using le
    unfolding compute_pass_at_k_def correct_count_length Let_def math_comb_def true_div_def
    by (auto simp: not_le not_less)
qed

theorem pass_at_k_formula_witness:
  "(1::int) \<le> 2 \<and> compute_pass_at_k ex3 2 = 2 / 3 \<and> compute_pass_at_k ex3 5 = 1"
proof -
  have a: "compute_pass_at_k ex3 2 = 1 - 1 / real (3 choose 2)"
    using pass_at_k_formula [of 2 ex3] by (simp add: filter_ex3) (simp add: ex3_def)
  have b: "compute_pass_at_k ex3 5 = 1"
    using pass_at_k_formula [of 5 ex3] by (simp add: filter_ex3) (simp add: ex3_def)
  show ?thesis
    unfolding a b choose_3_2 by simp
qed

text \<open>
  Claim C9. For fixed candidates, \<open>compute_pass_at_k\<close> is claimed to be non-decreasing
  in \<open>k\<close>. The code is not: with three candidates of which one is correct, the shortcut
  \<open>correct_count >= k\<close> returns 1 at \<open>k = 1\<close>, while \<open>k = 2\<close> goes through the formula and
  gives 2/3. The formula in the source's own comment gives 1/3 at \<open>k = 1\<close>.
\<close>

theorem pass_at_k_decreases:
  "compute_pass_at_k ex3 1 = 1 \<and> compute_pass_at_k ex3 2 = 2 / 3 \<and>
   \<not> compute_pass_at_k ex3 1 \<le> compute_pass_at_k ex3 2"
  by code_simp

subsection \<open>Indeterminate verdicts in the metrics\<close>

lemma get_is_correct_iff: "get_is_correct c \<longleftrightarrow> is_correct c = Flag True"
  by (simp add: get_is_correct_def split: json_flag.splits)

lemma get_is_correct_collapse: "get_is_correct (collapse c) = get_is_correct c"
  by (simp add: get_is_correct_def collapse_def split: json_flag.splits)

lemma collapse_correct: "get_is_correct c \<Longrightarrow> collapse c = c"
  by (simp add: get_is_correct_def collapse_def split: json_flag.splits)

lemma filter_collapse:
  "filter get_is_correct (map collapse cs) = filter get_is_correct cs"
  by (induction cs) (auto simp: get_is_correct_collapse collapse_correct)

lemma longest_step_collapse: "longest_step st (collapse c) = longest_step st c"
  by (cases "get_is_correct c")
     (simp_all add: longest_step_def get_is_correct_collapse collapse_correct split: prod.splits)

lemma foldl_longest_collapse:
  "foldl longest_step st (map collapse cs) = foldl longest_step st cs"
  by (induction cs arbitrary: st) (simp_all add: longest_step_collapse)

lemma compute_pass_at_k_collapse:
  "compute_pass_at_k (map collapse cs) k = compute_pass_at_k cs k"
  by (simp add: compute_pass_at_k_def filter_collapse)

lemma has_correct_proof_collapse:
  "has_correct_proof (map collapse cs) = has_correct_proof cs"
  by (simp add: has_correct_proof_def list_ex_iff get_is_correct_collapse)

lemma longest_step_picked:
  "picked_ok cs st \<Longrightarrow> c \<in> set cs \<Longrightarrow> picked_ok cs (longest_step st c)"
  by (auto simp: picked_ok_def longest_step_def Let_def get_is_correct_iff
           split: prod.splits option.splits)

lemma foldl_longest_picked:
  "picked_ok cs st \<Longrightarrow> set xs \<subseteq> set cs \<Longrightarrow> picked_ok cs (foldl longest_step st xs)"
  by (induction xs arbitrary: st) (simp_all add: longest_step_picked)

lemma longest_correct_picked: "picked_ok cs (longest_correct cs)"
  unfolding longest_correct_def
  by (rule foldl_longest_picked) (simp_all add: picked_ok_def)

lemma longest_ex_mixed:
  "longest_correct ex_mixed = (''ab'', 2, Some (mk_candidate ''ab'' (Flag True)))"
  by (simp add: longest_correct_def ex_mixed_def longest_step_def get_is_correct_def
                mk_candidate_def get_proof_def Let_def)

text \<open>
  Claim C10. In the aggregations a candidate whose \<open>is_correct\<close> is \<open>null\<close> or missing
  counts exactly like an incorrect one: replacing every such verdict by \<open>false\<close> changes
  neither \<open>compute_pass_at_k\<close>, nor \<open>has_correct_proof\<close>, nor the longest correct proof
  selected; the correct count counts the candidates marked \<open>true\<close> only,
  \<open>has_correct_proof\<close> holds only when some candidate is marked \<open>true\<close>, and the
  candidate selected as longest correct proof is one marked \<open>true\<close>.
\<close>

theorem indeterminate_is_failure:
  "compute_pass_at_k (map collapse cs) k = compute_pass_at_k cs k
   \<and> has_correct_proof (map collapse cs) = has_correct_proof cs
   \<and> longest_correct (map collapse cs) = longest_correct cs
   \<and> (\<Sum>c \<leftarrow> filter get_is_correct cs. (1::int)) =
       int (length (filter (\<lambda>c. is_correct c = Flag True) cs))
   \<and> (has_correct_proof cs \<longleftrightarrow> (\<exists>c \<in> set cs. is_correct c = Flag True))
   \<and> (\<forall>p l c. longest_correct cs = (p, l, Some c) \<longrightarrow>
         is_correct c = Flag True \<and> c \<in> set cs)"
proof -
  have a: "compute_pass_at_k (map collapse cs) k = compute_pass_at_k cs k"
    by (rule compute_pass_at_k_collapse)
  have b: "has_correct_proof (map collapse cs) = has_correct_proof cs"
    by (rule has_correct_proof_collapse)
  have c: "longest_correct (map collapse cs) = longest_correct cs"
    by (simp add: longest_correct_def foldl_longest_collapse)
  have d: "(\<Sum>c \<leftarrow> filter get_is_correct cs. (1::int)) =
      int (length (filter (\<lambda>c. is_correct c = Flag True) cs))"
    by (simp add: sum_ones get_is_correct_iff [abs_def])
  have e: "has_correct_proof cs \<longleftrightarrow> (\<exists>c \<in> set cs. is_correct c = Flag True)"
    by (simp add: has_correct_proof_def list_ex_iff get_is_correct_iff)
  have f: "\<forall>p l c. longest_correct cs = (p, l, Some c) \<longrightarrow>
      is_correct c = Flag True \<and> c \<in> set cs"
    using longest_correct_picked [of cs] by (auto simp: picked_ok_def)
  from a b c d e f show ?thesis by blast
qed

theorem indeterminate_is_failure_witness:
  "compute_pass_at_k (map collapse ex_mixed) 1 = compute_pass_at_k ex_mixed 1
   \<and> longest_correct ex_mixed = (''ab'', 2, Some (mk_candidate ''ab'' (Flag True)))
   \<and> is_correct (mk_candidate ''ab'' (Flag True)) = Flag True
   \<and> mk_candidate ''ab'' (Flag True) \<in> set ex_mixed"
  using indeterminate_is_failure [of ex_mixed 1] longest_ex_mixed
  by simp

section \<open>Properties of the checker session adapter\<close>

lemma ex_statement_lines: "length (splitlines ex_statement) = 5"
  by (simp add: ex_statement_def splitlines_def is_linebreak_def)


lemma check_loop_check_all:
  "check_loop server stmt k proofs (a, b, c, d) =
     (case check_all server stmt k proofs of
        Inl e \<Rightarrow> Inl e
      | Inr outs \<Rightarrow>
          Inr (a @ map fst outs, b @ map (\<lambda>(x, m, p, n). p) outs,
               c @ map (\<lambda>(x, m, p, n). m) outs, d @ map (\<lambda>(x, m, p, n). n) outs))"
  by (induction proofs arbitrary: k a b c d) (auto split: sum.splits)

lemma check_all_nth:
  "check_all server stmt k proofs = Inr outs \<Longrightarrow>
   length outs = length proofs \<and>
   (\<forall>i < length proofs.
      check_proof stmt (proofs ! i) (server (k + i) (stmt @ '' := '' @ proofs ! i)) =
        Inr (outs ! i))"
proof (induction proofs arbitrary: k outs)
  case Nil
  then show ?case by simp
next
  case (Cons p ps)
  from Cons.prems obtain out rest where
    one: "check_proof stmt p (server k (stmt @ '' := '' @ p)) = Inr out" and
    more: "check_all server stmt (Suc k) ps = Inr rest" and
    outs: "outs = out # rest"
    by (auto split: sum.splits)
  from Cons.IH [OF more] have len: "length rest = length ps" and
    nth: "\<And>i. i < length ps \<Longrightarrow>
      check_proof stmt (ps ! i) (server (Suc k + i) (stmt @ '' := '' @ ps ! i)) = Inr (rest ! i)"
    by simp_all
  show ?case
  proof (intro conjI allI impI)
    show "length outs = length (p # ps)" using len outs by simp
  next
    fix i assume "i < length (p # ps)"
    then show "check_proof stmt ((p # ps) ! i) (server (k + i) (stmt @ '' := '' @ (p # ps) ! i)) =
        Inr (outs ! i)"
      using one nth [of "i - 1"] outs by (cases i) simp_all
  qed
qed

lemma check_context_proofs_nth:
  assumes "check_context_proofs (Inr server) idx ctx stmt proofs = Inr (idx', cs, eps, ems, cls)"
  shows "idx' = idx \<and> length cs = length proofs \<and> length eps = length proofs \<and>
         length ems = length proofs \<and> length cls = length proofs \<and>
         (\<forall>i < length proofs.
            check_proof stmt (proofs ! i) (server (Suc i) (stmt @ '' := '' @ proofs ! i)) =
              Inr (cs ! i, ems ! i, eps ! i, cls ! i))"
proof -
  from assms obtain outs where
    all: "check_all server stmt 1 proofs = Inr outs" and
    lists: "cs = map fst outs" "eps = map (\<lambda>(x, m, p, n). p) outs"
           "ems = map (\<lambda>(x, m, p, n). m) outs" "cls = map (\<lambda>(x, m, p, n). n) outs" and
    idx: "idx' = idx"
    by (auto simp: check_context_proofs_def check_loop_check_all
             split: run_result.splits lean_output.splits sum.splits)
  from check_all_nth [OF all] have len: "length outs = length proofs" and
    nth: "\<And>i. i < length proofs \<Longrightarrow>
      check_proof stmt (proofs ! i) (server (Suc i) (stmt @ '' := '' @ proofs ! i)) = Inr (outs ! i)"
    by simp_all
  show ?thesis
    using idx len nth lists by (auto split: prod.splits)
qed

lemma check_proof_diagnostic:
  "check_proof stmt pf (Returns (CommandResponse False (m # ms))) =
     Inr (Some False, Some (msg_data m),
          (case (msg_start_pos m, msg_end_pos m) of
             (Some s, Some e) \<Rightarrow> Some (s, e) | _ \<Rightarrow> None),
          (case msg_start_pos m of
             Some (line, column) \<Rightarrow> Some (line - int (length (splitlines stmt)))
           | None \<Rightarrow> None))"
  by (simp add: check_proof_def)

lemma ex_run:
  "check_context_proofs (Inr ex_session) 7 ''import Mathlib'' ex_statement [''simp'', ''rfl''] =
     Inr (7, [Some False, None], [Some ((12, 4), (12, 10)), None],
          [Some ''unsolved goals'', None], [Some 7, None])"
  by (simp add: check_context_proofs_def ex_session_def check_proof_def ex_message_def
                ex_statement_lines caught_in_check_def)

text \<open>
  Claim C3. When the checker's response is not a process-level error, is not accepted as
  valid, and carries diagnostics, the outcome recorded for the proof is taken from the
  first message alone: correctness is \<open>false\<close>, the error message is the message's text,
  the error position is its (start, end) pair when both are present and none otherwise,
  and the compiled line count is the start line minus the number of lines of the theorem
  statement when a start is present and none otherwise. This holds of the loop body and
  of the entries of the four lists \<open>check_context_proofs\<close> returns. A diagnostic at line
  12 with a five-line statement gives 7.
\<close>

theorem first_diagnostic_outcome:
  "check_proof stmt pf (Returns (CommandResponse False (m # ms))) =
     Inr (Some False, Some (msg_data m),
          (case (msg_start_pos m, msg_end_pos m) of
             (Some s, Some e) \<Rightarrow> Some (s, e) | _ \<Rightarrow> None),
          (case msg_start_pos m of
             Some (line, column) \<Rightarrow> Some (line - int (length (splitlines stmt)))
           | None \<Rightarrow> None))
   \<and> (\<forall>server idx ctx proofs i idx' cs eps ems cls.
        check_context_proofs (Inr server) idx ctx stmt proofs = Inr (idx', cs, eps, ems, cls) \<and>
        i < length proofs \<and>
        server (Suc i) (stmt @ '' := '' @ proofs ! i) = Returns (CommandResponse False (m # ms))
        \<longrightarrow>
        cs ! i = Some False \<and> ems ! i = Some (msg_data m) \<and>
        eps ! i = (case (msg_start_pos m, msg_end_pos m) of
                     (Some s, Some e) \<Rightarrow> Some (s, e) | _ \<Rightarrow> None) \<and>
        cls ! i = (case msg_start_pos m of
                     Some (line, column) \<Rightarrow> Some (line - int (length (splitlines stmt)))
                   | None \<Rightarrow> None))"
proof -
  have in_lists: "cs ! i = Some False \<and> ems ! i = Some (msg_data m) \<and>
        eps ! i = (case (msg_start_pos m, msg_end_pos m) of
                     (Some s, Some e) \<Rightarrow> Some (s, e) | _ \<Rightarrow> None) \<and>
        cls ! i = (case msg_start_pos m of
                     Some (line, column) \<Rightarrow> Some (line - int (length (splitlines stmt)))
                   | None \<Rightarrow> None)"
    if ret: "check_context_proofs (Inr server) idx ctx stmt proofs = Inr (idx', cs, eps, ems, cls)"
    and i: "i < length proofs"
    and run: "server (Suc i) (stmt @ '' := '' @ proofs ! i) = Returns (CommandResponse False (m # ms))"
    for server idx ctx proofs i idx' cs eps ems cls
  proof -
    have "check_proof stmt (proofs ! i) (Returns (CommandResponse False (m # ms))) =
        Inr (cs ! i, ems ! i, eps ! i, cls ! i)"
      using check_context_proofs_nth [OF ret] i run by auto
    then show ?thesis
      unfolding check_proof_diagnostic by simp
  qed
  have one: "check_proof stmt pf (Returns (CommandResponse False (m # ms))) =
     Inr (Some False, Some (msg_data m),
          (case (msg_start_pos m, msg_end_pos m) of
             (Some s, Some e) \<Rightarrow> Some (s, e) | _ \<Rightarrow> None),
          (case msg_start_pos m of
             Some (line, column) \<Rightarrow> Some (line - int (length (splitlines stmt)))
           | None \<Rightarrow> None))"
    by (rule check_proof_diagnostic)
  from one in_lists show ?thesis
    by blast
qed

theorem first_diagnostic_outcome_witness:
  "check_context_proofs (Inr ex_session) 7 ''import Mathlib'' ex_statement [''simp'', ''rfl''] =
     Inr (7, [Some False, None], [Some ((12, 4), (12, 10)), None],
          [Some ''unsolved goals'', None], [Some 7, None])
   \<and> (0::nat) < length [''simp'', ''rfl'']
   \<and> ex_session (Suc 0) (ex_statement @ '' := '' @ [''simp'', ''rfl''] ! 0) =
       Returns (CommandResponse False [ex_message, ex_note])
   \<and> [Some False, None] ! 0 = Some False
   \<and> [Some ''unsolved goals'', None] ! 0 = Some (msg_data ex_message)
   \<and> [Some ((12, 4), (12, 10)), None] ! 0 = Some ((12, 4), (12, 10))
   \<and> [Some (7::int), None] ! 0 = Some (12 - int (length (splitlines ex_statement)))"
  using first_diagnostic_outcome [of ex_statement "''simp''" ex_message "[ex_note]"] ex_run
  by (simp add: ex_session_def ex_message_def ex_statement_lines)

text \<open>
  A response that is not a process-level error and carries a diagnostic, but is accepted
  as valid: the outcome recorded is a pass with no error message, no error position and
  the number of lines of the proof, in the loop body and in the lists returned.
\<close>

theorem accepted_response_with_diagnostic:
  "check_proof ex_statement ''simp'' (Returns (CommandResponse True [ex_warning])) =
     Inr (Some True, None, None, Some 1)
   \<and> check_context_proofs (Inr warn_session) 0 ''import Mathlib'' ex_statement [''simp''] =
       Inr (0, [Some True], [None], [None], [Some 1])"
  by (simp add: check_proof_def check_context_proofs_def warn_session_def splitlines_def
                is_linebreak_def)

lemma check_proof_transport:
  "e = TimeoutError \<or> e = ConnectionAbortedError \<or> e = JSONDecodeError \<Longrightarrow>
   check_proof stmt pf (Raises e) = Inr (None, None, None, None)"
  by (auto simp: check_proof_def caught_in_check_def)

text \<open>
  Claim C4. When a check call raises a timeout, a connection abort or a JSON decoding
  error, the outcome recorded for that proof is indeterminate: correctness, error
  message, error position and compiled line count are all none. It differs from the
  outcome of a definite failure, whose correctness is \<open>false\<close>.
\<close>

theorem indeterminate_outcome:
  assumes "e = TimeoutError \<or> e = ConnectionAbortedError \<or> e = JSONDecodeError"
  shows "check_proof stmt pf (Raises e) = Inr (None, None, None, None)
   \<and> check_proof stmt pf (Raises e) \<noteq> check_proof stmt pf (Returns (LeanError msg))
   \<and> (\<forall>server idx ctx proofs i idx' cs eps ems cls.
        check_context_proofs (Inr server) idx ctx stmt proofs = Inr (idx', cs, eps, ems, cls) \<and>
        i < length proofs \<and>
        server (Suc i) (stmt @ '' := '' @ proofs ! i) = Raises e
        \<longrightarrow>
        cs ! i = None \<and> cs ! i \<noteq> Some False \<and> ems ! i = None \<and> eps ! i = None \<and>
        cls ! i = None)"
proof -
  have one: "check_proof stmt p (Raises e) = Inr (None, None, None, None)" for p
    using assms by (rule check_proof_transport)
  have other: "check_proof stmt pf (Raises e) \<noteq> check_proof stmt pf (Returns (LeanError msg))"
    unfolding one by (simp add: check_proof_def)
  have in_lists: "cs ! i = None \<and> cs ! i \<noteq> Some False \<and> ems ! i = None \<and> eps ! i = None \<and>
        cls ! i = None"
    if ret: "check_context_proofs (Inr server) idx ctx stmt proofs = Inr (idx', cs, eps, ems, cls)"
    and i: "i < length proofs"
    and run: "server (Suc i) (stmt @ '' := '' @ proofs ! i) = Raises e"
    for server idx ctx proofs i idx' cs eps ems cls
  proof -
    have "check_proof stmt (proofs ! i) (Raises e) = Inr (cs ! i, ems ! i, eps ! i, cls ! i)"
      using check_context_proofs_nth [OF ret] i run by auto
    then show ?thesis
      unfolding one by simp
  qed
  from one [of pf] other in_lists show ?thesis
    by blast
qed

theorem indeterminate_outcome_witness:
  "check_context_proofs (Inr ex_session) 7 ''import Mathlib'' ex_statement [''simp'', ''rfl''] =
     Inr (7, [Some False, None], [Some ((12, 4), (12, 10)), None],
          [Some ''unsolved goals'', None], [Some 7, None])
   \<and> (1::nat) < length [''simp'', ''rfl'']
   \<and> ex_session (Suc 1) (ex_statement @ '' := '' @ [''simp'', ''rfl''] ! 1) = Raises TimeoutError
   \<and> [Some False, None] ! 1 = None
   \<and> check_proof ex_statement ''rfl'' (Raises TimeoutError) = Inr (None, None, None, None)"
  using indeterminate_outcome [of TimeoutError ex_statement "''rfl''"] ex_run
  by (simp add: ex_session_def)

section \<open>Properties of the validation runner and the repair pass\<close>


lemma attempts_append [simp]: "attempts (xs @ ys) = attempts xs @ attempts ys"
  by (simp add: attempts_def)

lemma pauses_append [simp]: "pauses (xs @ ys) = pauses xs @ pauses ys"
  by (simp add: pauses_def)

lemma attempts_simps [simp]:
  "attempts [] = []" "attempts (Attempt t # es) = t # attempts es"
  "attempts (Report e # es) = attempts es" "attempts (Pause d # es) = attempts es"
  by (simp_all add: attempts_def)

lemma pauses_simps [simp]:
  "pauses [] = []" "pauses (Attempt t # es) = pauses es"
  "pauses (Report e # es) = pauses es" "pauses (Pause d # es) = d # pauses es"
  by (simp_all add: pauses_def)

lemma check_context_proofs_idx:
  "check_context_proofs started idx ctx stmt proofs = Inr (idx', c, ep, em, cl) \<Longrightarrow> idx' = idx"
  by (auto simp: check_context_proofs_def
           split: sum.splits run_result.splits lean_output.splits)

subsection \<open>The retry loop of the first pass\<close>







subsection \<open>The retry loop of the repair pass\<close>

lemma revalidate_retry_stop:
  "\<not> (fst st = None \<and> n < 5) \<Longrightarrow>
   revalidate_retry start idx ctx stmt proofs st n tr = (st, n, tr)"
  by (subst revalidate_retry.simps) auto

lemma revalidate_retry_raise:
  "fst st = None \<Longrightarrow> n < 5 \<Longrightarrow>
   check_context_proofs (start n) idx ctx stmt proofs = Inl e \<Longrightarrow>
   revalidate_retry start idx ctx stmt proofs st n tr =
     revalidate_retry start idx ctx stmt proofs st (Suc n) (tr @ [Attempt n, Report e])"
  by (subst revalidate_retry.simps) simp

lemma revalidate_retry_return:
  "fst st = None \<Longrightarrow> n < 5 \<Longrightarrow>
   check_context_proofs (start n) idx ctx stmt proofs = Inr (idx', c, ep, em, cl) \<Longrightarrow>
   revalidate_retry start idx ctx stmt proofs st n tr =
     ((Some c, Some ep, Some em, Some cl), Suc n, tr @ [Attempt n])"
  by (subst revalidate_retry.simps) (auto simp: revalidate_retry_stop)

lemma revalidate_retry_first_return:
  "fst st = None \<Longrightarrow> j < 5 \<Longrightarrow> n \<le> j \<Longrightarrow>
   (\<forall>t. n \<le> t \<and> t < j \<longrightarrow> isl (check_context_proofs (start t) idx ctx stmt proofs)) \<Longrightarrow>
   check_context_proofs (start j) idx ctx stmt proofs = Inr (idx', c, ep, em, cl) \<Longrightarrow>
   \<exists>tr'. revalidate_retry start idx ctx stmt proofs st n tr =
           ((Some c, Some ep, Some em, Some cl), Suc j, tr') \<and>
         attempts tr' = attempts tr @ [n..<Suc j] \<and> pauses tr' = pauses tr"
proof (induction k \<equiv> "j - n" arbitrary: n tr)
  case 0
  then have "n = j" by simp
  with 0 show ?case
    by (simp add: revalidate_retry_return)
next
  case (Suc k)
  then have lt: "n < j" by simp
  with Suc.prems obtain e where e: "check_context_proofs (start n) idx ctx stmt proofs = Inl e"
    by (metis le_refl isl_def)
  have step: "revalidate_retry start idx ctx stmt proofs st n tr =
      revalidate_retry start idx ctx stmt proofs st (Suc n) (tr @ [Attempt n, Report e])"
    using Suc.prems(1,2) lt e by (intro revalidate_retry_raise) simp_all
  have "k = j - Suc n" using Suc.hyps(2) by simp
  from Suc.hyps(1) [OF this Suc.prems(1,2)] lt Suc.prems(4,5)
  obtain tr' where
    "revalidate_retry start idx ctx stmt proofs st (Suc n) (tr @ [Attempt n, Report e]) =
       ((Some c, Some ep, Some em, Some cl), Suc j, tr')"
    "attempts tr' = attempts (tr @ [Attempt n, Report e]) @ [Suc n..<Suc j]"
    "pauses tr' = pauses (tr @ [Attempt n, Report e])"
    by (metis Suc_leI Suc_leD)
  with step lt show ?case
    by (simp add: upt_conv_Cons)
qed



subsection \<open>Attempts on one task\<close>




lemma revalidate_task_first_return:
  assumes "j < 5" and "\<forall>t<j. attempt_raises start idx tsk gen t"
    and "check_context_proofs (start j) idx (srcContext tsk) (theoremStatement tsk)
           (g_candidates gen) = Inr r"
  shows "\<exists>tr. revalidate_task start idx tsk gen = (record_of r, Suc j, tr)"
proof -
  obtain idx' c ep em cl where r: "r = (idx', c, ep, em, cl)"
    by (cases r) auto
  with assms(3) have idx: "idx' = idx"
    by (auto dest: check_context_proofs_idx)
  have "\<exists>tr'. revalidate_retry start idx (srcContext tsk) (theoremStatement tsk)
           (g_candidates gen) (None, None, None, None) 0 [] =
           ((Some c, Some ep, Some em, Some cl), Suc j, tr') \<and>
         attempts tr' = attempts [] @ [0..<Suc j] \<and> pauses tr' = pauses []"
    by (rule revalidate_retry_first_return [where idx' = idx'])
       (use assms r in \<open>simp_all add: attempt_raises_def\<close>)
  then show ?thesis
    by (auto simp: revalidate_task_def record_of_def r idx)
qed






subsection \<open>The loops over the tasks\<close>

lemma needs_revalidation_malformed: "needs_revalidation r \<longleftrightarrow> malformed expected_len r"
  by (auto simp: needs_revalidation_def malformed_def list_ex_iff split: option.splits)

lemma zip_upt_nth: "zip [0..<length xs] xs = map (\<lambda>i. (i, xs ! i)) [0..<length xs]"
  by (rule nth_equalityI) simp_all

lemma select_revalidate_filter:
  "select_revalidate vs = filter (\<lambda>i. malformed expected_len (vs ! i)) [0..<length vs]"
  unfolding select_revalidate_def zip_upt_nth
  by (simp add: filter_map o_def needs_revalidation_malformed)

lemma repair_loop_Inr:
  "repair_loop start tasks gens idxs vs = Inr vs' \<Longrightarrow> distinct idxs \<Longrightarrow>
   length vs' = length vs \<and>
   (\<forall>i < length vs.
      vs' ! i = (if i \<in> set idxs
                 then fst (revalidate_task (start i) i (tasks ! i) (gens ! i))
                 else vs ! i))"
proof (induction idxs arbitrary: vs)
  case Nil
  then show ?case by simp
next
  case (Cons idx rest)
  let ?new = "fst (revalidate_task (start idx) idx (tasks ! idx) (gens ! idx))"
  from Cons.prems(1) have inr: "idx < length vs"
    and rest: "repair_loop start tasks gens rest (vs[idx := ?new]) = Inr vs'"
    by (auto simp: Let_def split: if_splits)
  from Cons.prems(2) have d: "distinct rest" and notin: "idx \<notin> set rest"
    by simp_all
  from Cons.IH [OF rest d] have len: "length vs' = length vs"
    and nth: "\<And>i. i < length vs \<Longrightarrow>
      vs' ! i = (if i \<in> set rest
                 then fst (revalidate_task (start i) i (tasks ! i) (gens ! i))
                 else (vs[idx := ?new]) ! i)"
    by simp_all
  show ?case
  proof (intro conjI allI impI)
    show "length vs' = length vs" by (rule len)
  next
    fix i assume i: "i < length vs"
    show "vs' ! i = (if i \<in> set (idx # rest)
                 then fst (revalidate_task (start i) i (tasks ! i) (gens ! i))
                 else vs ! i)"
      using nth [OF i] notin i by (cases "i = idx") auto
  qed
qed

lemma repair_loop_total:
  "\<forall>i \<in> set idxs. i < length tasks \<and> i < length gens \<and> i < length vs \<Longrightarrow>
   \<exists>vs'. repair_loop start tasks gens idxs vs = Inr vs'"
  by (induction idxs arbitrary: vs) (simp_all add: Let_def)





subsection \<open>The repair pass\<close>

lemma good_entry_ok: "\<not> malformed expected_len (good_entry i)"
  by (simp add: malformed_def expected_len_def good_entry_def)

lemma all_none_malformed: "malformed expected_len (all_none i)"
  by (simp add: malformed_def all_none_def)

lemma select_ex: "select_revalidate ex_validations = [1]"
  by (simp add: select_revalidate_filter ex_validations_def good_entry_ok all_none_malformed upt_rec)

lemma clean_pair:
  "\<forall>i < length [good_entry 0, good_entry 1].
     \<not> malformed expected_len ([good_entry 0, good_entry 1] ! i)"
  by (simp add: less_Suc_eq nth_Cons' good_entry_ok)

text \<open>
  What the repair pass does for every stored file: it selects the entries that are
  malformed for the candidate count 6, the constant \<open>expected_len\<close> of the script; it
  replaces each selected entry by the record its retry loop keeps and leaves every other
  entry as stored; on a file without such entries it selects nothing and returns the
  file unchanged.
\<close>

lemma repair_run_fixed_length:
  "select_revalidate vs = filter (\<lambda>i. malformed expected_len (vs ! i)) [0..<length vs]
   \<and> (length vs \<le> length tasks \<and> length vs \<le> length gens \<longrightarrow>
        (\<exists>vs'. revalidate_run start tasks gens vs = Inr vs'))
   \<and> (\<forall>vs'. revalidate_run start tasks gens vs = Inr vs' \<longrightarrow>
        length vs' = length vs \<and>
        (\<forall>i < length vs.
           vs' ! i = (if malformed expected_len (vs ! i)
                      then fst (revalidate_task (start i) i (tasks ! i) (gens ! i))
                      else vs ! i)))
   \<and> ((\<forall>i < length vs. \<not> malformed expected_len (vs ! i)) \<longrightarrow>
        select_revalidate vs = [] \<and> revalidate_run start tasks gens vs = Inr vs)"
proof -
  have sel: "select_revalidate vs = filter (\<lambda>i. malformed expected_len (vs ! i)) [0..<length vs]"
    by (rule select_revalidate_filter)
  have dist: "distinct (select_revalidate vs)"
    unfolding sel by simp
  have mem: "i \<in> set (select_revalidate vs) \<longleftrightarrow> i < length vs \<and> malformed expected_len (vs ! i)" for i
    unfolding sel by auto
  have total: "\<exists>vs'. revalidate_run start tasks gens vs = Inr vs'"
    if "length vs \<le> length tasks \<and> length vs \<le> length gens"
    unfolding revalidate_run_def
    by (rule repair_loop_total) (use that mem in auto)
  have res: "length vs' = length vs \<and>
        (\<forall>i < length vs.
           vs' ! i = (if malformed expected_len (vs ! i)
                      then fst (revalidate_task (start i) i (tasks ! i) (gens ! i))
                      else vs ! i))"
    if "revalidate_run start tasks gens vs = Inr vs'" for vs'
    using repair_loop_Inr [OF that [unfolded revalidate_run_def] dist] mem by simp
  have clean: "select_revalidate vs = [] \<and> revalidate_run start tasks gens vs = Inr vs"
    if "\<forall>i < length vs. \<not> malformed expected_len (vs ! i)"
  proof -
    have "select_revalidate vs = []"
      unfolding sel using that by (simp add: filter_empty_conv)
    then show ?thesis
      by (simp add: revalidate_run_def)
  qed
  from sel total res clean show ?thesis
    by blast
qed

lemma simp_lines: "length (splitlines ''simp'') = 1"
  by (simp add: splitlines_def is_linebreak_def)

lemma ok_run:
  "check_context_proofs (Inr ok_session) 0 (srcContext ex_task) (theoremStatement ex_task)
     (g_candidates ex_generation) =
   Inr (0, [Some True, Some False], [None, Some ((12, 4), (12, 10))],
        [None, Some ''unsolved goals''], [Some 1, Some 7])"
  by (simp add: check_context_proofs_def ok_session_def check_proof_def ex_message_def
                ex_statement_lines ex_task_def ex_generation_def simp_lines)

lemma ok_revalidate:
  "fst (revalidate_task (\<lambda>t. Inr ok_session) 0 ex_task ex_generation) = rechecked_entry 0"
proof -
  have "\<exists>tr. revalidate_task (\<lambda>t. Inr ok_session) 0 ex_task ex_generation =
      (record_of (0, [Some True, Some False], [None, Some ((12, 4), (12, 10))],
                  [None, Some ''unsolved goals''], [Some 1, Some 7]), Suc 0, tr)"
    by (rule revalidate_task_first_return) (simp_all add: ok_run)
  then show ?thesis
    by (auto simp: record_of_def rechecked_entry_def)
qed

lemma short_entry_well_formed:
  "\<not> malformed 2 (short_entry 0) \<and> \<not> malformed 2 (rechecked_entry 0)"
  by (simp add: malformed_def short_entry_def rechecked_entry_def)

lemma select_short: "select_revalidate [short_entry 0] = [0]"
  by (simp add: select_revalidate_def needs_revalidation_def short_entry_def expected_len_def)

lemma select_rechecked: "select_revalidate [rechecked_entry 0] = [0]"
  by (simp add: select_revalidate_def needs_revalidation_def rechecked_entry_def
                expected_len_def)

text \<open>
  Claim C6. The claim: the repair pass re-runs exactly the tasks whose stored entry is
  malformed for the expected candidate count of the run, and re-runs nothing on a file
  without malformed entries. The selection loop compares the array lengths with the
  literal 6, not with the number of candidates of the run. For a run with two candidates
  per task the stored entry \<open>short_entry 0\<close> has three arrays of length two and no \<open>null\<close>
  verdict, and it is selected; the task is re-run and the entry replaced by the
  checker's answer \<open>rechecked_entry 0\<close>, again of length two without \<open>null\<close>; and a second
  pass over the repaired file selects and re-runs the same entry again.
\<close>

theorem repair_rechecks_wellformed_entry:
  "g_candidates ex_generation = [''simp'', ''rfl'']
   \<and> correctness (short_entry 0) = Some [Some False, Some False]
   \<and> error_messages (short_entry 0) = Some [Some ''error'', Some ''error'']
   \<and> error_positions (short_entry 0) = Some [None, None]
   \<and> select_revalidate [short_entry 0] = [0]
   \<and> revalidate_run (\<lambda>i t. Inr ok_session) [ex_task] [ex_generation] [short_entry 0] =
       Inr [rechecked_entry 0]
   \<and> correctness (rechecked_entry 0) = Some [Some True, Some False]
   \<and> error_messages (rechecked_entry 0) = Some [None, Some ''unsolved goals'']
   \<and> error_positions (rechecked_entry 0) = Some [None, Some ((12, 4), (12, 10))]
   \<and> select_revalidate [rechecked_entry 0] = [0]
   \<and> revalidate_run (\<lambda>i t. Inr ok_session) [ex_task] [ex_generation] [rechecked_entry 0] =
       Inr [rechecked_entry 0]"
proof -
  have a: "revalidate_run (\<lambda>i t. Inr ok_session) [ex_task] [ex_generation] [short_entry 0] =
       Inr [rechecked_entry 0]"
    unfolding revalidate_run_def select_short
    by (simp add: ok_revalidate)
  have b: "revalidate_run (\<lambda>i t. Inr ok_session) [ex_task] [ex_generation]
       [rechecked_entry 0] = Inr [rechecked_entry 0]"
    unfolding revalidate_run_def select_rechecked
    by (simp add: ok_revalidate)
  show ?thesis
    unfolding a b select_short select_rechecked
    by (simp add: ex_generation_def short_entry_def rechecked_entry_def)
qed

section \<open>Properties of the result merger\<close>

lemma ex_long_merge: "combine_candidates ex_generation ex_validation_long = Inr ex_merged_long"
  by (simp add: combine_candidates_def combine_candidate_def ex_generation_def
                ex_validation_long_def ex_merged_long_def and_then_def py_index_def
                py_index_opt_def flag_of_def upt_rec)

text \<open>
  Claim C2. The claim: when the stored correctness is a list and one of the validation arrays
  has a length different from the number of generated candidates, the merge raises instead
  of producing a merged record. The loop of \<open>combine_files\<close> runs over
  \<open>range(len(gen_result["candidates"]))\<close> and never compares lengths: with two candidates
  and validation arrays of three entries it returns a merged record of two candidates, the
  third entry of every validation array being dropped, and the whole merge returns normally.
\<close>

theorem merge_keeps_longer_validation:
  "length (g_candidates ex_generation) = 2
   \<and> correctness ex_validation_long = Some [Some True, Some False, Some False]
   \<and> combine_candidates ex_generation ex_validation_long = Inr ex_merged_long
   \<and> (\<exists>results. combine_files [ex_task] [ex_generation] [ex_validation_long] = Inr results
        \<and> map_option r_candidates (results ''t'') = Some ex_merged_long)"
proof -
  have a: "combine_files [ex_task] [ex_generation] [ex_validation_long] =
      Inr [''t'' \<mapsto> \<lparr>r_theoremStatement = ex_statement, r_theoremName = ''t'',
                      r_candidates = ex_merged_long\<rparr>]"
    by (simp add: combine_files_def combine_step_def index_generations_def
                  index_validations_def ex_long_merge and_then_def total_candidates_def
                  ex_merged_long_def)
       (simp add: ex_generation_def ex_validation_long_def ex_task_def)
  show ?thesis
    unfolding a ex_long_merge
    by (simp add: ex_generation_def ex_validation_long_def)
qed


lemma combine_from_raises:
  "i \<in> set idxs \<Longrightarrow> isl (combine_candidate g v i) \<Longrightarrow> isl (combine_from g v idxs)"
  by (induction idxs) (auto simp: and_then_def split: sum.splits)






section \<open>Properties of the generation runner\<close>

declare generate_loop.simps [simp del]

lemma process_results_map:
  "(\<And>j. j \<in> set js \<Longrightarrow> process_slot (g j) = Inr (f j)) \<Longrightarrow>
   process_results (map g js) = Inr (arrays_of (map f js))"
  by (induction js)
     (simp_all add: and_then_def arrays_of_def append_outcome_def split: prod.splits)

lemma process_results_raises:
  "r \<in> set rs \<Longrightarrow> isl (process_slot r) \<Longrightarrow> isl (process_results rs)"
  by (induction rs) (auto simp: and_then_def split: sum.splits)

lemma process_results_length:
  "process_results rs = Inr b \<Longrightarrow> arrays_length b (length rs)"
proof (induction rs arbitrary: b)
  case Nil
  then show ?case by (auto simp: arrays_length_def)
next
  case (Cons r rs)
  then show ?case
    by (auto simp: and_then_def arrays_length_def append_outcome_def
             split: sum.splits prod.splits)
qed

lemma degraded_length: "arrays_length (degraded k) (nat k)"
  by (simp add: arrays_length_def degraded_def)

lemma generate_batch_length: "arrays_length (generate_batch env i k) (nat k)"
proof (cases "and_then (gather env i k) process_results")
  case (Inl e)
  then show ?thesis by (simp add: generate_batch_def degraded_length)
next
  case (Inr b)
  then obtain rs where g: "gather env i k = Inr rs" and p: "process_results rs = Inr b"
    by (auto simp: and_then_def split: sum.splits)
  from g have "length rs = nat k"
    by (auto simp: gather_def split: option.splits)
  with process_results_length [OF p] Inr show ?thesis
    by (simp add: generate_batch_def)
qed

lemma extend_all_length:
  "arrays_length a j \<Longrightarrow> arrays_length b k \<Longrightarrow> arrays_length (extend_all a b) (j + k)"
  by (auto simp: arrays_length_def extend_all_def split: prod.splits)

lemma generate_loop_length:
  "0 < batch \<Longrightarrow> arrays_length acc j \<Longrightarrow>
   arrays_length (generate_loop env n batch i acc) (j + nat (n - i))"
proof (induction env n batch i acc arbitrary: j rule: generate_loop.induct)
  case (1 env n batch i acc)
  show ?case
  proof (cases "i < n")
    case True
    let ?k = "min batch (n - i)"
    have "arrays_length (extend_all acc (generate_batch env i ?k)) (j + nat ?k)"
      using "1.prems"(2) generate_batch_length by (rule extend_all_length)
    with "1.IH" [of "j + nat ?k"] True "1.prems"(1)
    have "arrays_length (generate_loop env n batch (i + batch)
             (extend_all acc (generate_batch env i ?k))) (j + nat ?k + nat (n - (i + batch)))"
      by simp
    moreover have "j + nat ?k + nat (n - (i + batch)) = j + nat (n - i)"
      using True "1.prems"(1) by (cases "batch \<le> n - i") (simp_all add: min_def nat_add_distrib [symmetric])
    ultimately show ?thesis
      using True "1.prems"(1) by (subst generate_loop.simps) simp
  next
    case False
    with "1.prems" show ?thesis
      by (subst generate_loop.simps) simp
  qed
qed

lemma generate_length:
  assumes "0 < (case batch_size cfg of None \<Rightarrow> 3 | Some b \<Rightarrow> b)"
  shows "\<exists>a. generate env cfg = Inr a \<and> arrays_length a (nat (n_candidates cfg))"
proof -
  let ?b = "case batch_size cfg of None \<Rightarrow> 3 | Some b \<Rightarrow> b"
  have "arrays_length ([], [], [], [], []) 0"
    by (simp add: arrays_length_def)
  with assms have "arrays_length (generate_loop env (n_candidates cfg) ?b 0 ([], [], [], [], []))
      (0 + nat (n_candidates cfg - 0))"
    by (rule generate_loop_length)
  with assms show ?thesis
    by (simp add: generate_def Let_def)
qed

lemma generate_batch_degrades:
  assumes "gather_error env i \<noteq> None \<or>
           (\<exists>j < nat k. isl (process_slot (completion env i j)))"
  shows "generate_batch env i k = degraded k"
proof -
  have "isl (and_then (gather env i k) process_results)"
  proof (cases "gather_error env i")
    case (Some e)
    then show ?thesis by (simp add: gather_def and_then_def)
  next
    case None
    with assms obtain j where j: "j < nat k" "isl (process_slot (completion env i j))"
      by auto
    then have "completion env i j \<in> set (map (completion env i) [0..<nat k])"
      by simp
    from process_results_raises [OF this j(2)] None show ?thesis
      by (simp add: gather_def and_then_def)
  qed
  then show ?thesis
    by (auto simp: generate_batch_def split: sum.splits)
qed

lemma generate_batch_outcomes:
  assumes "gather_error env i = None"
    and "\<forall>j < nat k. process_slot (completion env i j) = Inr (f j)"
  shows "generate_batch env i k = arrays_of (map f [0..<nat k])"
proof -
  have "process_results (map (completion env i) [0..<nat k]) =
        Inr (arrays_of (map f [0..<nat k]))"
    using assms(2) by (intro process_results_map) simp
  with assms(1) show ?thesis
    by (simp add: generate_batch_def gather_def and_then_def)
qed

lemma process_slot_failed:
  "\<not> t_success r \<or> (\<exists>e. t_response r = Exc e) \<Longrightarrow>
   process_slot (SlotResult r) = Inr ('''', t_duration r, 0, 0, 0)"
  by (auto simp: process_slot_def split: response_or_exception.splits)

lemma process_slot_no_content:
  "t_success r \<Longrightarrow> t_response r = Resp resp \<Longrightarrow> choices resp = None # rest \<Longrightarrow>
   process_slot (SlotResult r) =
     Inr ('''', t_duration r,
          (case usage resp of
             None \<Rightarrow> (0, 0, 0)
           | Some u \<Rightarrow> (u_prompt_tokens u, u_completion_tokens u, u_total_tokens u)))"
  by (simp add: process_slot_def and_then_def py_index_def split: option.splits)

lemma ex_batch_0:
  "generate_batch ex_provider 0 2 = ([[], []], [5 / 2, 4], [0, 10], [0, 3], [0, 13])"
  by (simp add: generate_batch_def gather_def ex_provider_def and_then_def upt_rec
                process_slot_def ex_failed_def ex_no_content_def ex_usage_def py_index_def
                append_outcome_def)

lemma ex_extract: "extract_proof_from_response
    (''```lean'' @ [CHR 0x0A] @ ''simp'' @ [CHR 0x0A] @ ''```'') = ''simp''"
  by code_simp

lemma ex_batch_2:
  "generate_batch ex_provider 2 1 = ([''simp''], [1], [10], [3], [13])"
  by (simp add: generate_batch_def gather_def ex_provider_def and_then_def
                process_slot_def ex_fenced_def ex_usage_def py_index_def
                append_outcome_def ex_extract [simplified])

lemma ex_generate:
  "generate ex_provider ex_config =
     Inr ([[], [], ''simp''], [5 / 2, 4, 1], [0, 10, 10], [0, 3, 3], [0, 13, 13])"
proof -
  have "generate_loop ex_provider 3 2 0 ([], [], [], [], []) =
        generate_loop ex_provider 3 2 2 ([[], []], [5 / 2, 4], [0, 10], [0, 3], [0, 13])"
    by (subst generate_loop.simps) (simp add: ex_batch_0 extend_all_def)
  also have "\<dots> =
        generate_loop ex_provider 3 2 4
          ([[], [], ''simp''], [5 / 2, 4, 1], [0, 10, 10], [0, 3, 3], [0, 13, 13])"
    by (subst generate_loop.simps) (simp add: ex_batch_2 extend_all_def)
  also have "\<dots> = ([[], [], ''simp''], [5 / 2, 4, 1], [0, 10, 10], [0, 3, 3], [0, 13, 13])"
    by (subst generate_loop.simps) simp
  finally show ?thesis
    by (simp add: generate_def ex_config_def)
qed

text \<open>
  The provider-failure slot of the example run keeps its measured duration of 2.5 seconds,
  in the slot outcome and in the durations returned by \<open>generate\<close>; it is not recorded
  as 0. With a batch size of 0 the run returns no lists at all.
\<close>

theorem provider_failure_keeps_duration:
  "process_slot ex_failed = Inr ('''', 5 / 2, 0, 0, 0)
   \<and> process_slot ex_failed \<noteq> Inr ('''', 0, 0, 0, 0)
   \<and> generate ex_provider ex_config =
       Inr ([[], [], ''simp''], [5 / 2, 4, 1], [0, 10, 10], [0, 3, 3], [0, 13, 13])
   \<and> generate ex_provider \<lparr>n_candidates = 3, batch_size = Some 0\<rparr> = Inl ValueError"
  using ex_generate by (simp add: process_slot_def ex_failed_def generate_def)

text \<open>
  Claim C8. For every request slot of a generation batch: an exception returned in place of
  a result yields an empty candidate with duration 0 and token counts 0; a failure
  reported by \<open>timed_completion\<close> (success flag false, or an exception as response) yields
  an empty candidate and token counts 0 together with the measured duration of the call; a
  successful response whose first choice has no content yields an empty candidate, the
  measured duration, and the token counts of the usage block when there is one, else 0. A
  batch in which gathering raises, or in which reading some slot raises, contributes
  \<open>current_batch_size\<close> empty candidates with zero duration and token counts; a batch in
  which nothing raises contributes the outcomes of its slots in order. For a positive batch
  size (the configured one, or the default 3) \<open>generate\<close> returns, and its five lists all
  have length \<open>n_candidates\<close>.
\<close>

theorem generation_slot_outcomes:
  "(\<forall>e. process_slot (SlotException e) = Inr ('''', 0, 0, 0, 0))
   \<and> (\<forall>r. \<not> t_success r \<or> (\<exists>e. t_response r = Exc e) \<longrightarrow>
          process_slot (SlotResult r) = Inr ('''', t_duration r, 0, 0, 0))
   \<and> (\<forall>r resp rest.
          t_success r \<and> t_response r = Resp resp \<and> choices resp = None # rest \<longrightarrow>
          process_slot (SlotResult r) =
            Inr ('''', t_duration r,
                 (case usage resp of
                    None \<Rightarrow> (0, 0, 0)
                  | Some u \<Rightarrow> (u_prompt_tokens u, u_completion_tokens u, u_total_tokens u))))
   \<and> (\<forall>env i k.
          gather_error env i \<noteq> None \<or> (\<exists>j < nat k. isl (process_slot (completion env i j))) \<longrightarrow>
          generate_batch env i k = degraded k)
   \<and> (\<forall>env i k f.
          gather_error env i = None \<and>
          (\<forall>j < nat k. process_slot (completion env i j) = Inr (f j)) \<longrightarrow>
          generate_batch env i k = arrays_of (map f [0..<nat k]))
   \<and> (\<forall>env cfg.
          0 < (case batch_size cfg of None \<Rightarrow> 3 | Some b \<Rightarrow> b) \<longrightarrow>
          (\<exists>a. generate env cfg = Inr a \<and> arrays_length a (nat (n_candidates cfg))))"
proof -
  have a: "process_slot (SlotException e) = Inr ('''', 0, 0, 0, 0)" for e
    by (simp add: process_slot_def)
  note b = process_slot_failed
  note c = process_slot_no_content
  note d = generate_batch_degrades
  note e = generate_batch_outcomes
  note f = generate_length
  show ?thesis
    apply (intro conjI allI impI)
    subgoal by (rule a)
    subgoal by (rule b)
    subgoal by (rule c) simp_all
    subgoal by (rule d)
    subgoal by (rule e) simp_all
    subgoal by (rule f)
    done
qed

theorem generation_slot_outcomes_witness:
  "process_slot ex_raised = Inr ('''', 0, 0, 0, 0)
   \<and> process_slot ex_failed = Inr ('''', 5 / 2, 0, 0, 0)
   \<and> process_slot ex_no_content = Inr ('''', 4, 10, 3, 13)
   \<and> process_slot ex_no_choices = Inl IndexError
   \<and> generate_batch ex_broken_provider 0 2 = ([[], []], [0, 0], [0, 0], [0, 0], [0, 0])
   \<and> (\<exists>a. generate ex_provider ex_config = Inr a \<and> arrays_length a 3)"
proof -
  note main = generation_slot_outcomes
  have a: "process_slot ex_raised = Inr ('''', 0, 0, 0, 0)"
    using main [THEN conjunct1] by (simp add: ex_raised_def)
  have b: "process_slot ex_failed = Inr ('''', 5 / 2, 0, 0, 0)"
    using main [THEN conjunct2, THEN conjunct1, rule_format,
            of "\<lparr>t_response = Exc TimeoutError, t_duration = 5 / 2, t_success = False\<rparr>"]
    by (simp add: ex_failed_def)
  have c: "process_slot ex_no_content = Inr ('''', 4, 10, 3, 13)"
    using main [THEN conjunct2, THEN conjunct2, THEN conjunct1, rule_format,
            of "\<lparr>t_response = Resp \<lparr>choices = [None], usage = Some ex_usage\<rparr>,
                 t_duration = 4, t_success = True\<rparr>"
               "\<lparr>choices = [None], usage = Some ex_usage\<rparr>" "[]"]
    by (simp add: ex_no_content_def ex_usage_def)
  have d: "process_slot ex_no_choices = Inl IndexError"
    by (simp add: process_slot_def ex_no_choices_def and_then_def py_index_def)
  have "\<exists>j < nat 2. isl (process_slot (completion ex_broken_provider 0 j))"
    by (rule exI [of _ 1]) (simp add: ex_broken_provider_def d)
  then have "generate_batch ex_broken_provider 0 2 = degraded 2"
    using main [THEN conjunct2, THEN conjunct2, THEN conjunct2, THEN conjunct1, rule_format,
            of ex_broken_provider 0 2]
    by blast
  then have e: "generate_batch ex_broken_provider 0 2 = ([[], []], [0, 0], [0, 0], [0, 0], [0, 0])"
    by (simp add: degraded_def numeral_2_eq_2)
  have f: "\<exists>a. generate ex_provider ex_config = Inr a \<and> arrays_length a 3"
    using main [THEN conjunct2, THEN conjunct2, THEN conjunct2, THEN conjunct2,
            THEN conjunct2, rule_format, of ex_config ex_provider]
    by (simp add: ex_config_def)
  from a b c d e f show ?thesis
    by simp
qed

end
